theory Spec2Isabelle
  imports Complex_Main
begin

section \<open>Genome decoding of gene.jax (src/gene/encoding.py)\<close>

text \<open>
  The decoders of \<^verbatim>\<open>src/gene/encoding.py\<close> turn a flat genome (a one-dimensional
  array) into the parameters of a feed-forward network. The embedding keeps the
  source's names. Arrays are lists, a two-dimensional array is a list of rows.
  Layer sizes and the position dimensionality \<^verbatim>\<open>d\<close> are array extents and are
  modelled as natural numbers. Every exception the source can raise is a value
  of \<open>error\<close>, and a function that can raise returns \<open>error + 'a\<close>.
\<close>

subsection \<open>Errors and configuration\<close>

datatype error =
    AssertionError
  | IndexError
  | KeyError
  | ZeroDivisionError
  | ValueError
  | TypeError

text \<open>
  The configuration dictionary, restricted to the entries the decoders read:
  \<^verbatim>\<open>config["encoding"]["d"]\<close>, \<^verbatim>\<open>config["encoding"]["distance"]\<close>,
  \<^verbatim>\<open>config["encoding"]["type"]\<close> and \<^verbatim>\<open>config["net"]["layer_dimensions"]\<close>.
\<close>

text \<open>
  The remaining entries of the dictionary (\<^verbatim>\<open>seed\<close>, \<^verbatim>\<open>evo\<close>, \<^verbatim>\<open>task\<close>, ...) are the
  extension part of the record: the functions below take a \<open>'z config_scheme\<close>.
\<close>

record config =
  encoding_d :: nat
  encoding_distance :: string
  encoding_type :: string
  layer_dimensions :: "nat list"

text \<open>The value stored under a key \<^verbatim>\<open>Dense_i\<close>: a dictionary with the two keys
  \<^verbatim>\<open>"kernel"\<close> and \<^verbatim>\<open>"bias"\<close>.\<close>

record 'a dense =
  kernel :: "'a list list"
  bias :: "'a list"

text \<open>A Python dictionary keeps its keys in insertion order; assigning to a key
  that is present replaces the value in place, assigning to a new key appends.\<close>

type_synonym 'a dict = "(string \<times> 'a) list"

fun dict_set :: "'a dict \<Rightarrow> string \<Rightarrow> 'a \<Rightarrow> 'a dict" where
  "dict_set [] k v = [(k, v)]"
| "dict_set ((k', v') # m) k v =
     (if k' = k then (k, v) # m else (k', v') # dict_set m k v)"

subsection \<open>Python and array-library primitives\<close>

text \<open>\<^verbatim>\<open>xs[a:b]\<close> for non-negative \<^verbatim>\<open>a\<close>, \<^verbatim>\<open>b\<close>.\<close>

definition slice :: "'a list \<Rightarrow> nat \<Rightarrow> nat \<Rightarrow> 'a list" where
  "slice xs a b = drop a (take b xs)"

text \<open>\<^verbatim>\<open>str(i)\<close> of a non-negative integer, as the f-string \<^verbatim>\<open>f"Dense_{i}"\<close> uses it.\<close>

fun str :: "nat \<Rightarrow> string" where
  "str n = (if n < 10 then [char_of (48 + n)]
            else str (n div 10) @ [char_of (48 + n mod 10)])"

declare str.simps [simp del]

definition dense_key :: "nat \<Rightarrow> string" where
  "dense_key i = ''Dense_'' @ str i"

text \<open>
  \<^verbatim>\<open>jnp.split(ary, [k])\<close>: the two slices \<^verbatim>\<open>ary[0:k]\<close> and \<^verbatim>\<open>ary[k:size]\<close>, taken
  with \<^verbatim>\<open>lax.slice\<close>, which rejects a limit beyond the array.
\<close>

definition jnp_split_at :: "'a list \<Rightarrow> nat \<Rightarrow> error + ('a list \<times> 'a list)" where
  "jnp_split_at ary k =
     (if k \<le> length ary then Inr (take k ary, drop k ary) else Inl TypeError)"

text \<open>
  \<^verbatim>\<open>jnp.split(ary, n)\<close> with an integer \<^verbatim>\<open>n\<close>: \<^verbatim>\<open>n\<close> sections of equal length
  (\<^verbatim>\<open>divmod(size, n)\<close>; a remainder is a \<^verbatim>\<open>ValueError\<close>).
\<close>

definition jnp_split_sections :: "'a list \<Rightarrow> nat \<Rightarrow> error + 'a list list" where
  "jnp_split_sections ary n =
     (if n = 0 then Inl ZeroDivisionError
      else if length ary mod n \<noteq> 0 then Inl ValueError
      else Inr (map (\<lambda>k. slice ary (k * (length ary div n)) (Suc k * (length ary div n)))
                    [0..<n]))"

text \<open>
  \<^verbatim>\<open>lax.dynamic_slice(operand, (start,), (size,))\<close>: a slice larger than the
  operand is rejected; otherwise the start index is clamped so that the slice
  lies inside the operand.
\<close>

definition dynamic_slice :: "'a list \<Rightarrow> nat \<Rightarrow> nat \<Rightarrow> error + 'a list" where
  "dynamic_slice operand start slice_size =
     (if slice_size > length operand then Inl TypeError
      else Inr (take slice_size (drop (min start (length operand - slice_size)) operand)))"

text \<open>\<^verbatim>\<open>jnp.reshape(a, newshape=(r, c))\<close> of a one-dimensional array, row-major.\<close>

definition reshape :: "'a list \<Rightarrow> nat \<Rightarrow> nat \<Rightarrow> error + 'a list list" where
  "reshape a r c =
     (if length a \<noteq> r * c then Inl TypeError
      else Inr (map (\<lambda>k. slice a (k * c) (Suc k * c)) [0..<r]))"

text \<open>\<^verbatim>\<open>zip(layer_dims[:-1], layer_dims[1:])\<close>: the consecutive layer pairs.\<close>

definition transitions :: "nat list \<Rightarrow> (nat \<times> nat) list" where
  "transitions layer_dims = zip (butlast layer_dims) (tl layer_dims)"

subsection \<open>Genome sizes\<close>

definition gene_enc_genome_size :: "'z config_scheme \<Rightarrow> error + nat" where
  "gene_enc_genome_size config =
     (let d = encoding_d config;
          l_dims = layer_dimensions config
      in case l_dims of
           [] \<Rightarrow> Inl IndexError
         | l0 # _ \<Rightarrow> Inr (l0 * d + sum_list (tl l_dims) * (d + 1)))"

definition direct_enc_genome_size :: "'z config_scheme \<Rightarrow> nat" where
  "direct_enc_genome_size config =
     (let layer_dims = layer_dimensions config
      in sum_list (map (\<lambda>(in_f, out_f). in_f * out_f + out_f) (transitions layer_dims)))"

subsection \<open>Distance functions\<close>

text \<open>
  Modelled from the spec: \<^verbatim>\<open>gene.distances.Vectorized_distances\<close> is imported by
  \<^verbatim>\<open>encoding.py\<close> but its module is not part of the sources. Section 4.3 of the
  specification gives \<^verbatim>\<open>L2\<close> as the Euclidean norm of the difference of two position
  vectors and \<^verbatim>\<open>pL2\<close> as the same formula per pair; section 4.5 gives the batched
  form: one entry per (source, target) pair, row = source, column = target.
\<close>

definition L2_dist :: "real list \<Rightarrow> real list \<Rightarrow> real" where
  "L2_dist a b = sqrt (sum_list (map (\<lambda>(x, y). (x - y) * (x - y)) (zip a b)))"

definition vectorized ::
  "('a list \<Rightarrow> 'a list \<Rightarrow> 'a) \<Rightarrow> 'a list list \<Rightarrow> nat list \<Rightarrow> nat list \<Rightarrow> 'a list list" where
  "vectorized df positions src_idx target_idx =
     map (\<lambda>s. map (\<lambda>t. df (positions ! s) (positions ! t)) target_idx) src_idx"

definition Vectorized_distances ::
  "string \<Rightarrow> (real list list \<Rightarrow> nat list \<Rightarrow> nat list \<Rightarrow> real list list) option" where
  "Vectorized_distances key =
     (if key = ''L2'' \<or> key = ''pL2'' then Some (vectorized L2_dist) else None)"

subsection \<open>The positional decoder\<close>

text \<open>One iteration of the loop of \<^verbatim>\<open>gene_decoding\<close>, for transition \<open>i\<close>.\<close>

definition gene_layer ::
  "'z config_scheme \<Rightarrow> real list \<Rightarrow> real list \<Rightarrow> nat \<Rightarrow> nat \<Rightarrow> nat \<Rightarrow> error + real dense" where
  "gene_layer config genome_w genome_b i layer_in layer_out =
     (let layer_dims = layer_dimensions config in
      case jnp_split_sections genome_w (sum_list layer_dims) of
        Inl e \<Rightarrow> Inl e
      | Inr genome_w_positions \<Rightarrow>
          (let layer_offset = sum_list (slice layer_dims 0 i);
               src_idx = map (\<lambda>k. layer_offset + k) [0..<layer_in];
               target_idx = map (\<lambda>k. layer_offset + layer_in + k) [0..<layer_out]
           in case Vectorized_distances (encoding_distance config) of
                None \<Rightarrow> Inl KeyError
              | Some f \<Rightarrow>
                  (let weight_matrix = f genome_w_positions src_idx target_idx
                   in case dynamic_slice genome_b (sum_list (slice layer_dims 1 (i + 1))) layer_out of
                        Inl e \<Rightarrow> Inl e
                      | Inr biases \<Rightarrow> Inr \<lparr>kernel = weight_matrix, bias = biases\<rparr>)))"

fun gene_loop ::
  "'z config_scheme \<Rightarrow> real list \<Rightarrow> real list \<Rightarrow> (nat \<times> nat \<times> nat) list \<Rightarrow> real dense dict
     \<Rightarrow> error + real dense dict" where
  "gene_loop config genome_w genome_b [] model_parameters = Inr model_parameters"
| "gene_loop config genome_w genome_b ((i, layer_in, layer_out) # rest) model_parameters =
     (case gene_layer config genome_w genome_b i layer_in layer_out of
        Inl e \<Rightarrow> Inl e
      | Inr entry \<Rightarrow>
          gene_loop config genome_w genome_b rest
            (dict_set model_parameters (dense_key i) entry))"

definition gene_decoding :: "real list \<Rightarrow> 'z config_scheme \<Rightarrow> error + real dense dict" where
  "gene_decoding genome config =
     (case gene_enc_genome_size config of
        Inl e \<Rightarrow> Inl e
      | Inr expected \<Rightarrow>
          if length genome \<noteq> expected then Inl AssertionError
          else
            (let layer_dims = layer_dimensions config;
                 d = encoding_d config
             in case jnp_split_at genome (sum_list layer_dims * d) of
                  Inl e \<Rightarrow> Inl e
                | Inr (genome_w, genome_b) \<Rightarrow>
                    gene_loop config genome_w genome_b
                      (List.enumerate 0 (transitions layer_dims)) []))"

subsection \<open>The direct decoder\<close>

fun direct_loop ::
  "nat list \<Rightarrow> 'a list \<Rightarrow> 'a list \<Rightarrow> (nat \<times> nat \<times> nat) list \<Rightarrow> nat \<Rightarrow> 'a dense dict
     \<Rightarrow> error + 'a dense dict" where
  "direct_loop layer_dims genome_w genome_b [] offset model_parameters = Inr model_parameters"
| "direct_loop layer_dims genome_w genome_b ((i, layer_in, layer_out) # rest) offset
     model_parameters =
     (let section_length = layer_in * layer_out in
      case dynamic_slice genome_w offset section_length of
        Inl e \<Rightarrow> Inl e
      | Inr weights \<Rightarrow>
          (case reshape weights layer_in layer_out of
             Inl e \<Rightarrow> Inl e
           | Inr weight_matrix \<Rightarrow>
               (case dynamic_slice genome_b (sum_list (slice layer_dims 1 (i + 1))) layer_out of
                  Inl e \<Rightarrow> Inl e
                | Inr biases \<Rightarrow>
                    direct_loop layer_dims genome_w genome_b rest (offset + section_length)
                      (dict_set model_parameters (dense_key i)
                         \<lparr>kernel = weight_matrix, bias = biases\<rparr>))))"

definition direct_decoding :: "'a list \<Rightarrow> 'z config_scheme \<Rightarrow> error + 'a dense dict" where
  "direct_decoding genome config =
     (let layer_dims = layer_dimensions config
      in case jnp_split_at genome
                (sum_list (map (\<lambda>i. layer_dims ! i * layer_dims ! (i + 1))
                               [0..<length layer_dims - 1])) of
           Inl e \<Rightarrow> Inl e
         | Inr (genome_w, genome_b) \<Rightarrow>
             direct_loop layer_dims genome_w genome_b
               (List.enumerate 0 (transitions layer_dims)) 0 [])"

subsection \<open>Selecting the decoder\<close>



subsection \<open>Layout of the decoded parameters\<close>

text \<open>
  Closed forms for what one loop iteration reads, used to state what the
  decoders return: the offset of a transition's weights and biases in their
  blocks, the rows of a reshaped section, the neuron indexes of a transition,
  and the entry stored under \<^verbatim>\<open>Dense_i\<close>. \<open>digits_value\<close> reads a decimal string
  back (the inverse of \<open>str\<close>).
\<close>

definition digits_value :: "string \<Rightarrow> nat" where
  "digits_value s = foldl (\<lambda>a c. 10 * a + (of_char c - 48)) 0 s"

definition weight_offset :: "nat list \<Rightarrow> nat \<Rightarrow> nat" where
  "weight_offset l i = sum_list (map (\<lambda>(a, b). a * b) (take i (transitions l)))"

definition bias_offset :: "nat list \<Rightarrow> nat \<Rightarrow> nat" where
  "bias_offset l i = sum_list (slice l 1 (i + 1))"

definition matrix_rows :: "'a list \<Rightarrow> nat \<Rightarrow> nat \<Rightarrow> 'a list list" where
  "matrix_rows a r c = map (\<lambda>k. slice a (k * c) (Suc k * c)) [0..<r]"

definition direct_entry :: "nat list \<Rightarrow> 'a list \<Rightarrow> 'a list \<Rightarrow> nat \<Rightarrow> string \<times> 'a dense" where
  "direct_entry l gw gb i =
     (dense_key i,
      \<lparr>kernel = matrix_rows (take (l ! i * l ! Suc i) (drop (weight_offset l i) gw)) (l ! i) (l ! Suc i),
       bias = take (l ! Suc i) (drop (bias_offset l i) gb)\<rparr>)"

definition src_idx :: "nat list \<Rightarrow> nat \<Rightarrow> nat list" where
  "src_idx l i = map (\<lambda>k. sum_list (slice l 0 i) + k) [0..<l ! i]"

definition target_idx :: "nat list \<Rightarrow> nat \<Rightarrow> nat list" where
  "target_idx l i = map (\<lambda>k. sum_list (slice l 0 i) + l ! i + k) [0..<l ! Suc i]"

definition gene_entry ::
  "(real list list \<Rightarrow> nat list \<Rightarrow> nat list \<Rightarrow> real list list) \<Rightarrow> nat list \<Rightarrow> nat
     \<Rightarrow> real list \<Rightarrow> real list \<Rightarrow> nat \<Rightarrow> string \<times> real dense" where
  "gene_entry f l d gw gb i =
     (dense_key i,
      \<lparr>kernel = f (matrix_rows gw (sum_list l) d) (src_idx l i) (target_idx l i),
       bias = take (l ! Suc i) (drop (bias_offset l i) gb)\<rparr>)"

section \<open>Properties\<close>

subsection \<open>Keys, slices and offsets\<close>

lemma digits_value_str: "digits_value (str n) = n"
proof (induction n rule: str.induct)
  case (1 n)
  show ?case
  proof (cases "n < 10")
    case True
    then show ?thesis by (simp add: str.simps[of n] digits_value_def)
  next
    case False
    have m: "(48 + n mod 10) mod 256 = 48 + n mod 10"
      by (rule mod_less) (use pos_mod_bound[of 10 n] in linarith)
    from False 1 have "digits_value (str (n div 10)) = n div 10" by simp
    with False m show ?thesis
      by (simp add: str.simps[of n] digits_value_def)
  qed
qed

lemma str_inj: "str m = str n \<Longrightarrow> m = n"
  by (metis digits_value_str)

lemma dense_key_inj: "dense_key i = dense_key j \<Longrightarrow> i = j"
  by (simp add: dense_key_def str_inj)

lemma dict_set_fresh: "k \<notin> fst ` set m \<Longrightarrow> dict_set m k v = m @ [(k, v)]"
  by (induction m) auto

lemma dynamic_slice_in_range:
  "start + n \<le> length xs \<Longrightarrow> dynamic_slice xs start n = Inr (take n (drop start xs))"
  by (auto simp: dynamic_slice_def min_def)

lemma length_transitions: "length (transitions l) = length l - 1"
  by (simp add: transitions_def)

lemma nth_transitions:
  "Suc i < length l \<Longrightarrow> transitions l ! i = (l ! i, l ! Suc i)"
  by (simp add: transitions_def nth_butlast nth_tl)

lemma reshape_ok: "length a = r * c \<Longrightarrow> reshape a r c = Inr (matrix_rows a r c)"
  by (simp add: reshape_def matrix_rows_def)

lemma weight_offset_Suc:
  "Suc i < length l \<Longrightarrow> weight_offset l (Suc i) = weight_offset l i + l ! i * l ! Suc i"
  by (simp add: weight_offset_def take_Suc_conv_app_nth length_transitions nth_transitions)

lemma weight_offset_mono: "i \<le> j \<Longrightarrow> weight_offset l i \<le> weight_offset l j"
proof (induction j)
  case 0 then show ?case by simp
next
  case (Suc j)
  show ?case
  proof (cases "i = Suc j")
    case True then show ?thesis by simp
  next
    case False
    with Suc have le: "weight_offset l i \<le> weight_offset l j" by simp
    show ?thesis
    proof (cases "Suc j < length l")
      case True
      with le show ?thesis by (simp add: weight_offset_Suc)
    next
      case False
      then have "take (Suc j) (transitions l) = take j (transitions l)"
        by (simp add: length_transitions)
      with le show ?thesis by (simp add: weight_offset_def)
    qed
  qed
qed

lemma direct_loop_char:
  assumes "k \<le> length l - 1"
    and "weight_offset l (length l - 1) \<le> length gw"
    and "\<forall>j. Suc j < length l \<longrightarrow> bias_offset l j + l ! Suc j \<le> length gb"
    and "fst ` set mp \<subseteq> dense_key ` {..<k}"
  shows "direct_loop l gw gb (List.enumerate k (drop k (transitions l))) (weight_offset l k) mp
         = Inr (mp @ map (direct_entry l gw gb) [k..<length l - 1])"
  using assms(1,4)
proof (induction k arbitrary: mp rule: inc_induct)
  case base
  then show ?case by (simp add: length_transitions)
next
  case (step n)
  from step.hyps have n: "Suc n < length l" by simp
  have dr: "drop n (transitions l) = (l ! n, l ! Suc n) # drop (Suc n) (transitions l)"
    using n by (simp add: Cons_nth_drop_Suc[symmetric] length_transitions nth_transitions)
  have "weight_offset l (Suc n) \<le> weight_offset l (length l - 1)"
    using n by (intro weight_offset_mono) simp
  with assms(2) n have w: "weight_offset l n + l ! n * l ! Suc n \<le> length gw"
    by (simp add: weight_offset_Suc)
  from assms(3) n have b: "bias_offset l n + l ! Suc n \<le> length gb" by simp
  have fresh: "dense_key n \<notin> fst ` set mp"
    using step.prems by (auto dest: dense_key_inj)
  have keys: "fst ` set (mp @ [direct_entry l gw gb n]) \<subseteq> dense_key ` {..<Suc n}"
    using step.prems by (auto simp: direct_entry_def lessThan_Suc)
  have up: "[n..<length l - 1] = n # [Suc n..<length l - 1]"
    using n by (simp add: upt_conv_Cons)
  have len: "length (take (l ! n * l ! Suc n) (drop (weight_offset l n) gw)) = l ! n * l ! Suc n"
    using w by simp
  have bs: "dynamic_slice gb (sum_list (slice l 1 (n + 1))) (l ! Suc n)
            = Inr (take (l ! Suc n) (drop (bias_offset l n) gb))"
    using dynamic_slice_in_range[OF b] by (simp add: bias_offset_def)
  have "direct_loop l gw gb (List.enumerate n (drop n (transitions l))) (weight_offset l n) mp
        = direct_loop l gw gb (List.enumerate (Suc n) (drop (Suc n) (transitions l)))
            (weight_offset l (Suc n)) (mp @ [direct_entry l gw gb n])"
    using bs n
    by (simp add: dr Let_def dynamic_slice_in_range[OF w] reshape_ok[OF len]
        dict_set_fresh[OF fresh] weight_offset_Suc direct_entry_def)
  also have "\<dots> = Inr ((mp @ [direct_entry l gw gb n]) @ map (direct_entry l gw gb) [Suc n..<length l - 1])"
    by (rule step.IH[OF keys])
  finally show ?case using n by (simp add: upt_conv_Cons)
qed

lemma weight_offset_upt:
  "k \<le> length l - 1 \<Longrightarrow>
     sum_list (map (\<lambda>i. l ! i * l ! (i + 1)) [0..<k]) = weight_offset l k"
proof (induction k)
  case 0 then show ?case by (simp add: weight_offset_def)
next
  case (Suc k) then show ?case by (simp add: weight_offset_Suc)
qed

lemma map_snd_transitions: "map snd (transitions l) = tl l"
  by (simp add: transitions_def map_snd_zip_take)

lemma sum_list_transition_split:
  fixes T :: "(nat \<times> nat) list"
  shows "sum_list (map (\<lambda>(in_f, out_f). in_f * out_f + out_f) T)
         = sum_list (map (\<lambda>(a, b). a * b) T) + sum_list (map snd T)"
  by (induction T) auto

lemma direct_size_split:
  "direct_enc_genome_size config =
     weight_offset (layer_dimensions config) (length (layer_dimensions config) - 1)
     + sum_list (tl (layer_dimensions config))"
  by (simp add: direct_enc_genome_size_def Let_def sum_list_transition_split
      map_snd_transitions weight_offset_def length_transitions)

lemma bias_offset_take: "bias_offset l i = sum_list (take i (tl l))"
  by (simp add: bias_offset_def slice_def drop_Suc tl_take)

lemma sum_list_take_nth_le:
  fixes xs :: "nat list"
  shows "j < length xs \<Longrightarrow> sum_list (take j xs) + xs ! j \<le> sum_list xs"
proof -
  assume j: "j < length xs"
  have "sum_list xs = sum_list (take (Suc j) xs) + sum_list (drop (Suc j) xs)"
    by (metis append_take_drop_id sum_list_append)
  with j show ?thesis by (simp add: take_Suc_conv_app_nth)
qed

lemma bias_offset_bound:
  "Suc j < length l \<Longrightarrow> bias_offset l j + l ! Suc j \<le> sum_list (tl l)"
  using sum_list_take_nth_le[of j "tl l"] by (simp add: bias_offset_take nth_tl)

lemma direct_decoding_char:
  assumes "direct_enc_genome_size config \<le> length genome"
  shows "direct_decoding genome config =
         Inr (map (direct_entry (layer_dimensions config)
                     (take (weight_offset (layer_dimensions config) (length (layer_dimensions config) - 1)) genome)
                     (drop (weight_offset (layer_dimensions config) (length (layer_dimensions config) - 1)) genome))
                [0..<length (layer_dimensions config) - 1])"
proof -
  let ?l = "layer_dimensions config"
  let ?W = "weight_offset ?l (length ?l - 1)"
  from assms have sz: "?W + sum_list (tl ?l) \<le> length genome"
    by (simp add: direct_size_split)
  then have W: "?W \<le> length genome" by simp
  have split: "jnp_split_at genome ?W = Inr (take ?W genome, drop ?W genome)"
    using W by (simp add: jnp_split_at_def)
  have b: "\<forall>j. Suc j < length ?l \<longrightarrow> bias_offset ?l j + ?l ! Suc j \<le> length (drop ?W genome)"
  proof (intro allI impI)
    fix j assume "Suc j < length ?l"
    then have "bias_offset ?l j + ?l ! Suc j \<le> sum_list (tl ?l)"
      by (rule bias_offset_bound)
    with sz show "bias_offset ?l j + ?l ! Suc j \<le> length (drop ?W genome)" by simp
  qed
  have w: "weight_offset ?l (length ?l - 1) \<le> length (take ?W genome)"
    using W by simp
  have "direct_loop ?l (take ?W genome) (drop ?W genome)
          (List.enumerate 0 (drop 0 (transitions ?l))) (weight_offset ?l 0) []
        = Inr ([] @ map (direct_entry ?l (take ?W genome) (drop ?W genome)) [0..<length ?l - 1])"
    by (rule direct_loop_char[OF _ w b]) simp_all
  moreover have "sum_list (map (\<lambda>i. ?l ! i * ?l ! (i + 1)) [0..<length ?l - 1]) = ?W"
    by (rule weight_offset_upt) simp
  moreover have "weight_offset ?l 0 = 0"
    by (simp add: weight_offset_def)
  ultimately show ?thesis
    using split by (simp add: direct_decoding_def Let_def)
qed

lemma jnp_split_sections_ok:
  "0 < n \<Longrightarrow> length ary = n * d \<Longrightarrow> jnp_split_sections ary n = Inr (matrix_rows ary n d)"
  by (simp add: jnp_split_sections_def matrix_rows_def)

lemma gene_layer_ok:
  assumes "0 < sum_list (layer_dimensions config)"
    and "length gw = sum_list (layer_dimensions config) * encoding_d config"
    and "Vectorized_distances (encoding_distance config) = Some f"
    and "bias_offset (layer_dimensions config) i + layer_dimensions config ! Suc i \<le> length gb"
  shows "gene_layer config gw gb i (layer_dimensions config ! i) (layer_dimensions config ! Suc i)
         = Inr (snd (gene_entry f (layer_dimensions config) (encoding_d config) gw gb i))"
proof -
  have bs: "dynamic_slice gb (sum_list (slice (layer_dimensions config) 1 (i + 1)))
              (layer_dimensions config ! Suc i)
            = Inr (take (layer_dimensions config ! Suc i)
                     (drop (bias_offset (layer_dimensions config) i) gb))"
    using dynamic_slice_in_range[OF assms(4)] by (simp add: bias_offset_def)
  show ?thesis
    using bs assms(3)
    by (simp add: gene_layer_def Let_def jnp_split_sections_ok[OF assms(1,2)]
        gene_entry_def src_idx_def target_idx_def)
qed

lemma gene_loop_char:
  assumes "k \<le> length (layer_dimensions config) - 1"
    and "0 < sum_list (layer_dimensions config)"
    and "length gw = sum_list (layer_dimensions config) * encoding_d config"
    and "Vectorized_distances (encoding_distance config) = Some f"
    and "\<forall>j. Suc j < length (layer_dimensions config) \<longrightarrow>
           bias_offset (layer_dimensions config) j + layer_dimensions config ! Suc j \<le> length gb"
    and "fst ` set mp \<subseteq> dense_key ` {..<k}"
  shows "gene_loop config gw gb (List.enumerate k (drop k (transitions (layer_dimensions config)))) mp
         = Inr (mp @ map (gene_entry f (layer_dimensions config) (encoding_d config) gw gb)
                       [k..<length (layer_dimensions config) - 1])"
  using assms(1,6)
proof (induction k arbitrary: mp rule: inc_induct)
  case base
  then show ?case by (simp add: length_transitions)
next
  case (step n)
  let ?l = "layer_dimensions config"
  let ?e = "gene_entry f ?l (encoding_d config) gw gb"
  from step.hyps have n: "Suc n < length ?l" by simp
  have dr: "drop n (transitions ?l) = (?l ! n, ?l ! Suc n) # drop (Suc n) (transitions ?l)"
    using n by (simp add: Cons_nth_drop_Suc[symmetric] length_transitions nth_transitions)
  from assms(5) n have b: "bias_offset ?l n + ?l ! Suc n \<le> length gb" by simp
  have fresh: "dense_key n \<notin> fst ` set mp"
    using step.prems by (auto dest: dense_key_inj)
  have keys: "fst ` set (mp @ [?e n]) \<subseteq> dense_key ` {..<Suc n}"
    using step.prems by (auto simp: gene_entry_def lessThan_Suc)
  have entry: "(dense_key n, snd (?e n)) = ?e n"
    by (simp add: gene_entry_def)
  have "gene_loop config gw gb (List.enumerate n (drop n (transitions ?l))) mp
        = gene_loop config gw gb (List.enumerate (Suc n) (drop (Suc n) (transitions ?l)))
            (mp @ [?e n])"
    by (simp add: dr gene_layer_ok[OF assms(2,3,4) b] dict_set_fresh[OF fresh] entry)
  also have "\<dots> = Inr ((mp @ [?e n]) @ map ?e [Suc n..<length ?l - 1])"
    by (rule step.IH[OF keys])
  finally show ?case using n by (simp add: upt_conv_Cons)
qed

lemma gene_size_split:
  "layer_dimensions config \<noteq> [] \<Longrightarrow>
   gene_enc_genome_size config =
     Inr (sum_list (layer_dimensions config) * encoding_d config
          + sum_list (tl (layer_dimensions config)))"
  by (cases "layer_dimensions config")
     (simp_all add: gene_enc_genome_size_def Let_def algebra_simps)

lemma gene_decoding_char:
  assumes "0 < sum_list (layer_dimensions config)"
    and "Vectorized_distances (encoding_distance config) = Some f"
    and "length genome = sum_list (layer_dimensions config) * encoding_d config
                         + sum_list (tl (layer_dimensions config))"
  shows "gene_decoding genome config =
         Inr (map (gene_entry f (layer_dimensions config) (encoding_d config)
                     (take (sum_list (layer_dimensions config) * encoding_d config) genome)
                     (drop (sum_list (layer_dimensions config) * encoding_d config) genome))
                [0..<length (layer_dimensions config) - 1])"
proof -
  let ?l = "layer_dimensions config"
  let ?P = "sum_list ?l * encoding_d config"
  from assms(1) have ne: "?l \<noteq> []" by auto
  have split: "jnp_split_at genome ?P = Inr (take ?P genome, drop ?P genome)"
    using assms(3) by (simp add: jnp_split_at_def)
  have w: "length (take ?P genome) = ?P"
    using assms(3) by simp
  have b: "\<forall>j. Suc j < length ?l \<longrightarrow> bias_offset ?l j + ?l ! Suc j \<le> length (drop ?P genome)"
  proof (intro allI impI)
    fix j assume "Suc j < length ?l"
    then have "bias_offset ?l j + ?l ! Suc j \<le> sum_list (tl ?l)"
      by (rule bias_offset_bound)
    with assms(3) show "bias_offset ?l j + ?l ! Suc j \<le> length (drop ?P genome)" by simp
  qed
  have "gene_loop config (take ?P genome) (drop ?P genome)
          (List.enumerate 0 (drop 0 (transitions ?l))) []
        = Inr ([] @ map (gene_entry f ?l (encoding_d config) (take ?P genome) (drop ?P genome))
                      [0..<length ?l - 1])"
    by (rule gene_loop_char[OF _ assms(1) w assms(2) b]) simp_all
  then show ?thesis
    using split assms(3)
    by (simp add: gene_decoding_def gene_size_split[OF ne] Let_def)
qed

lemma str_small: "str 0 = ''0''" "str 1 = ''1''" "str 2 = ''2''"
  by code_simp+





subsection \<open>Shapes, blocks and valid genomes\<close>

lemma matrix_rows_Suc:
  "matrix_rows (x @ ys) (Suc r) (length x) = x # matrix_rows ys r (length x)"
proof -
  have "[0..<Suc r] = 0 # map Suc [0..<r]"
    by (simp add: upt_conv_Cons map_Suc_upt del: upt_Suc)
  then show ?thesis
    by (simp add: matrix_rows_def slice_def o_def del: upt_Suc)
qed

lemma matrix_rows_concat:
  "\<forall>row\<in>set M. length row = c \<Longrightarrow> matrix_rows (concat M) (length M) c = M"
proof (induction M)
  case Nil
  then show ?case by (simp add: matrix_rows_def)
next
  case (Cons x M)
  then have "length x = c" by simp
  with Cons show ?case
    using matrix_rows_Suc[of x "concat M" "length M"] by simp
qed

lemma concat_block:
  "i < length B \<Longrightarrow>
   take (length (B ! i)) (drop (sum_list (map length (take i B))) (concat B)) = B ! i"
proof (induction B arbitrary: i)
  case Nil
  then show ?case by simp
next
  case (Cons x B)
  then show ?case by (cases i) simp_all
qed

lemma bias_offset_sum:
  assumes "i < length l"
  shows "bias_offset l i = (\<Sum>j = 1..i. l ! j)"
proof -
  have len: "length (take i (tl l)) = i" using assms by simp
  have "bias_offset l i = (\<Sum>k = 0..<i. take i (tl l) ! k)"
    unfolding bias_offset_take sum_list_sum_nth len ..
  also have "\<dots> = (\<Sum>k = 0..<i. l ! Suc k)"
    using assms by (intro sum.cong) (simp_all add: nth_tl)
  also have "\<dots> = (\<Sum>j = Suc 0..<Suc i. l ! j)"
    by (simp only: sum.shift_bounds_Suc_ivl)
  also have "\<dots> = (\<Sum>j = 1..i. l ! j)"
    by (simp add: atLeastLessThanSuc_atLeastAtMost)
  finally show ?thesis .
qed

lemma length_matrix_rows: "length (matrix_rows a r c) = r"
  by (simp add: matrix_rows_def)

lemma length_row_matrix_rows:
  "length a = r * c \<Longrightarrow> row \<in> set (matrix_rows a r c) \<Longrightarrow> length row = c"
proof -
  assume a: "length a = r * c" and "row \<in> set (matrix_rows a r c)"
  then obtain k where k: "k < r" and row: "row = slice a (k * c) (Suc k * c)"
    by (auto simp: matrix_rows_def)
  from k have "Suc k * c \<le> r * c" by (intro mult_le_mono1) simp
  with a show ?thesis by (simp add: row slice_def)
qed

lemma vectorized_shape:
  "length (vectorized df P s t) = length s"
  "row \<in> set (vectorized df P s t) \<Longrightarrow> length row = length t"
  by (auto simp: vectorized_def)

lemma weight_blocks:
  assumes "map (map length) Ws = map (\<lambda>(a, b). replicate a b) (transitions l)"
  shows "map length (map concat Ws) = map (\<lambda>(a, b). a * b) (transitions l)"
proof -
  have "map length (map concat Ws) = map sum_list (map (map length) Ws)"
    by (simp add: length_concat o_def)
  also have "\<dots> = map (\<lambda>(a, b). a * b) (transitions l)"
    unfolding assms by (simp add: o_def split_def sum_list_replicate)
  finally show ?thesis .
qed

lemma replicate_shape:
  assumes "map length M = replicate r c"
  shows "length M = r" and "\<forall>row\<in>set M. length row = c"
proof -
  from assms have "length (map length M) = length (replicate r c)" by simp
  then show "length M = r" by simp
  show "\<forall>row\<in>set M. length row = c"
  proof
    fix row assume "row \<in> set M"
    then have "length row \<in> set (map length M)" by simp
    then show "length row = c" unfolding assms by (auto split: if_splits)
  qed
qed

lemma dense_key_small:
  "dense_key 0 = ''Dense_0''" "dense_key (Suc 0) = ''Dense_1''"
  "dense_key (Suc (Suc 0)) = ''Dense_2''"
  by code_simp+

lemma sum_list_valid_pos:
  "2 \<le> length l \<Longrightarrow> \<forall>x\<in>set l. 0 < x \<Longrightarrow> 0 < sum_list (l :: nat list)"
  by (cases l) auto


lemma length_take_drop: "a + n \<le> length xs \<Longrightarrow> length (take n (drop a xs)) = n"
  by simp

lemma known_distance:
  "Vectorized_distances key \<noteq> None \<Longrightarrow> Vectorized_distances key = Some (vectorized L2_dist)"
  by (simp add: Vectorized_distances_def split: if_splits)

lemma direct_decoding_valid:
  assumes "length genome = direct_enc_genome_size config"
  shows "direct_decoding genome config =
         Inr (map (direct_entry (layer_dimensions config)
                (take (sum_list (map (\<lambda>k. layer_dimensions config ! k * layer_dimensions config ! (k + 1))
                                     [0..<length (layer_dimensions config) - 1])) genome)
                (drop (sum_list (map (\<lambda>k. layer_dimensions config ! k * layer_dimensions config ! (k + 1))
                                     [0..<length (layer_dimensions config) - 1])) genome))
              [0..<length (layer_dimensions config) - 1])"
proof -
  have "sum_list (map (\<lambda>k. layer_dimensions config ! k * layer_dimensions config ! (k + 1))
                      [0..<length (layer_dimensions config) - 1])
        = weight_offset (layer_dimensions config) (length (layer_dimensions config) - 1)"
    by (rule weight_offset_upt) simp
  then show ?thesis
    using direct_decoding_char[of config genome] assms by simp
qed

lemma gene_decoding_valid:
  assumes "2 \<le> length (layer_dimensions config)"
    and "\<forall>x\<in>set (layer_dimensions config). 0 < x"
    and "Vectorized_distances (encoding_distance config) \<noteq> None"
    and "gene_enc_genome_size config = Inr (length g)"
  shows "gene_decoding g config =
         Inr (map (gene_entry (vectorized L2_dist) (layer_dimensions config) (encoding_d config)
                     (take (sum_list (layer_dimensions config) * encoding_d config) g)
                     (drop (sum_list (layer_dimensions config) * encoding_d config) g))
                [0..<length (layer_dimensions config) - 1])"
proof -
  have pos: "0 < sum_list (layer_dimensions config)"
    using assms(1,2) by (rule sum_list_valid_pos)
  then have ne: "layer_dimensions config \<noteq> []" by auto
  have len: "length g = sum_list (layer_dimensions config) * encoding_d config
                        + sum_list (tl (layer_dimensions config))"
    using assms(4) by (simp add: gene_size_split[OF ne])
  show ?thesis
    by (rule gene_decoding_char[OF pos known_distance[OF assms(3)] len])
qed

section \<open>The claims\<close>

subsection \<open>Claim C1: scenario B of the positional decoder\<close>

text \<open>
  C1. For topology \<open>[2, 2]\<close>, \<open>d = 1\<close> and the \<^verbatim>\<open>L2\<close> distance, the positional decoder
  turns the genome \<open>[0, 5, 10, 15, 1, 2]\<close> into the single entry \<^verbatim>\<open>Dense_0\<close> with kernel
  \<open>[[10, 15], [5, 10]]\<close> and bias \<open>[1, 2]\<close>. The kernel entry in row \<open>s\<close> and column
  \<open>t\<close> is the distance between the position windows of the neurons with global
  indexes \<open>layer_offset + s\<close> and \<open>layer_offset + layer_in + t\<close>, here \<open>0 + s\<close> and
  \<open>0 + 2 + t\<close> in the position table \<open>[[0], [5], [10], [15]]\<close>. The distance table is
  the one modelled from the specification; the genome is taken over the reals, on
  which the values of this scenario are computed without rounding.
\<close>

theorem gene_decoding_scenario_B:
  "gene_decoding [0, 5, 10, 15, 1, 2]
     \<lparr>encoding_d = 1, encoding_distance = ''L2'', encoding_type = ''gene'',
      layer_dimensions = [2, 2]\<rparr>
   = Inr [(''Dense_0'', \<lparr>kernel = [[10, 15], [5, 10]], bias = [1, 2]\<rparr>)]
   \<and> [[10, 15], [5, 10]]
     = map (\<lambda>s. map (\<lambda>t. L2_dist ([[0], [5], [10], [15]] ! (0 + s))
                                  ([[0], [5], [10], [15]] ! (0 + 2 + t))) [0..<2]) [0..<2]"
proof
  have pos: "jnp_split_sections [0, 5, 10, 15 :: real] 4 = Inr [[0], [5], [10], [15]]"
    by (simp add: jnp_split_sections_def slice_def upt_rec)
  have d: "L2_dist [0] [10] = 10" "L2_dist [0] [15] = 15" "L2_dist [5] [10] = 5" "L2_dist [5] [15] = 10"
    by (simp_all add: L2_dist_def)
  have b: "dynamic_slice [1, 2 :: real] 0 2 = Inr [1, 2]"
    by (simp add: dynamic_slice_def)
  have k: "dense_key 0 = ''Dense_0''"
    by (simp add: dense_key_def str_small)
  show "gene_decoding [0, 5, 10, 15, 1, 2]
     \<lparr>encoding_d = 1, encoding_distance = ''L2'', encoding_type = ''gene'',
      layer_dimensions = [2, 2]\<rparr>
   = Inr [(''Dense_0'', \<lparr>kernel = [[10, 15], [5, 10]], bias = [1, 2]\<rparr>)]"
    by (simp add: gene_decoding_def gene_enc_genome_size_def jnp_split_at_def transitions_def
        enumerate_eq_zip gene_layer_def pos slice_def Vectorized_distances_def vectorized_def
        d b k upt_rec)
  show "[[10, 15], [5, 10]]
     = map (\<lambda>s. map (\<lambda>t. L2_dist ([[0], [5], [10], [15]] ! (0 + s))
                                  ([[0], [5], [10], [15]] ! (0 + 2 + t))) [0..<2]) [0..<2]"
    by (simp add: upt_rec d)
qed

subsection \<open>Claim C2: round trip of the direct encoding\<close>

text \<open>
  C2. Take a topology of length at least two with positive entries, one weight matrix
  \<open>Ws ! i\<close> of shape \<open>(layer_dims[i], layer_dims[i+1])\<close> and one bias vector \<open>bs ! i\<close> of
  length \<open>layer_dims[i+1]\<close> per transition. The genome that holds all weight matrices,
  each row-major, in transition order, followed by all bias vectors in transition
  order, is decoded by the direct decoder into exactly these matrices and vectors:
  the entry \<^verbatim>\<open>Dense_i\<close> has kernel \<open>Ws ! i\<close> and bias \<open>bs ! i\<close>.
\<close>

theorem direct_round_trip:
  assumes "2 \<le> length (layer_dimensions config)"
    and "\<forall>x\<in>set (layer_dimensions config). 0 < x"
    and "map (map length) Ws = map (\<lambda>(a, b). replicate a b) (transitions (layer_dimensions config))"
    and "map length bs = tl (layer_dimensions config)"
  shows "direct_decoding (concat (map concat Ws) @ concat bs) config
         = Inr (map (\<lambda>i. (dense_key i, \<lparr>kernel = Ws ! i, bias = bs ! i\<rparr>))
                  [0..<length (layer_dimensions config) - 1])"
proof -
  let ?l = "layer_dimensions config"
  let ?n = "length ?l - 1"
  let ?gw = "concat (map concat Ws)"
  let ?gb = "concat bs"
  have lenW: "length Ws = ?n"
    using arg_cong[OF assms(3), of length] by (simp add: length_transitions)
  have lenb: "length bs = ?n"
    using arg_cong[OF assms(4), of length] by simp
  have blocks: "map length (map concat Ws) = map (\<lambda>(a, b). a * b) (transitions ?l)"
    by (rule weight_blocks[OF assms(3)])
  have woff: "weight_offset ?l i = sum_list (map length (take i (map concat Ws)))" for i
    by (simp only: weight_offset_def take_map[symmetric] blocks)
  have W: "weight_offset ?l ?n = length ?gw"
    using lenW by (simp add: woff length_concat)
  have B: "sum_list (tl ?l) = length ?gb"
    by (simp add: length_concat assms(4))
  have size: "direct_enc_genome_size config \<le> length (?gw @ ?gb)"
    using W B by (simp add: direct_size_split)
  have entry: "direct_entry ?l ?gw ?gb i = (dense_key i, \<lparr>kernel = Ws ! i, bias = bs ! i\<rparr>)"
    if i: "i < ?n" for i
  proof -
    from i have si: "Suc i < length ?l" by simp
    have iW: "i < length (map concat Ws)" using i lenW by simp
    have shape: "map length (Ws ! i) = replicate (?l ! i) (?l ! Suc i)"
      using arg_cong[OF assms(3), of "\<lambda>xs. xs ! i"] i lenW si
      by (simp add: length_transitions nth_transitions)
    then have rows: "length (Ws ! i) = ?l ! i" "\<forall>row\<in>set (Ws ! i). length row = ?l ! Suc i"
      by (rule replicate_shape)+
    have blk: "length (map concat Ws ! i) = ?l ! i * ?l ! Suc i"
      using arg_cong[OF blocks, of "\<lambda>xs. xs ! i"] iW i si
      by (simp add: length_transitions nth_transitions)
    have "take (?l ! i * ?l ! Suc i) (drop (weight_offset ?l i) ?gw) = concat (Ws ! i)"
      using concat_block[OF iW] i lenW by (simp add: woff blk[symmetric])
    then have k: "matrix_rows (take (?l ! i * ?l ! Suc i) (drop (weight_offset ?l i) ?gw))
                    (?l ! i) (?l ! Suc i) = Ws ! i"
      using matrix_rows_concat[OF rows(2)] rows(1) by simp
    have ib: "i < length bs" using i lenb by simp
    have lb: "length (bs ! i) = ?l ! Suc i"
      using arg_cong[OF assms(4), of "\<lambda>xs. xs ! i"] ib si by (simp add: nth_tl)
    have bo: "bias_offset ?l i = sum_list (map length (take i bs))"
      by (simp add: bias_offset_take assms(4)[symmetric] take_map)
    have b: "take (?l ! Suc i) (drop (bias_offset ?l i) ?gb) = bs ! i"
      using concat_block[OF ib] by (simp add: bo lb)
    show ?thesis by (simp add: direct_entry_def k b)
  qed
  have "direct_decoding (?gw @ ?gb) config = Inr (map (direct_entry ?l ?gw ?gb) [0..<?n])"
    using direct_decoding_char[OF size] W by simp
  also have "map (direct_entry ?l ?gw ?gb) [0..<?n]
             = map (\<lambda>i. (dense_key i, \<lparr>kernel = Ws ! i, bias = bs ! i\<rparr>)) [0..<?n]"
    by (rule map_cong) (simp_all add: entry)
  finally show ?thesis .
qed

theorem direct_round_trip_witness:
  "direct_decoding [1, 2, 3, 4, 5, 6, 7, 8, 9 :: real]
     \<lparr>encoding_d = 1, encoding_distance = ''L2'', encoding_type = ''direct'',
      layer_dimensions = [2, 2, 1]\<rparr>
   = Inr [(''Dense_0'', \<lparr>kernel = [[1, 2], [3, 4]], bias = [7, 8]\<rparr>),
          (''Dense_1'', \<lparr>kernel = [[5], [6]], bias = [9]\<rparr>)]"
proof -
  let ?c = "\<lparr>encoding_d = 1, encoding_distance = ''L2'', encoding_type = ''direct'',
             layer_dimensions = [2, 2, 1]\<rparr>"
  let ?Ws = "[[[1, 2], [3, 4]], [[5], [6]]] :: real list list list"
  let ?bs = "[[7, 8], [9]] :: real list list"
  have h1: "2 \<le> length (layer_dimensions ?c)" by simp
  have h2: "\<forall>x\<in>set (layer_dimensions ?c). 0 < x" by simp
  have h3: "map (map length) ?Ws
            = map (\<lambda>(a, b). replicate a b) (transitions (layer_dimensions ?c))"
    by (simp add: transitions_def eval_nat_numeral)
  have h4: "map length ?bs = tl (layer_dimensions ?c)" by simp
  have up: "[0..<length (layer_dimensions ?c) - 1] = [0, Suc 0]"
    by (simp add: upt_rec)
  show ?thesis
    using direct_round_trip[OF h1 h2 h3 h4] unfolding up
    by (simp add: dense_key_small)
qed

subsection \<open>Claim C3: size of a directly encoded genome\<close>

text \<open>
  C3. The direct-encoding genome size is the sum, over the consecutive layer pairs, of
  \<open>layer_dims[i] * layer_dims[i+1] + layer_dims[i+1]\<close>; for the topology \<open>[4, 3, 2]\<close> it
  is 23. The equation holds for every list of layer sizes, so in particular for
  every topology of length at least two with positive entries.
\<close>

theorem direct_enc_genome_size_sum:
  "direct_enc_genome_size config =
     (\<Sum>i<length (layer_dimensions config) - 1.
         layer_dimensions config ! i * layer_dimensions config ! (i + 1)
         + layer_dimensions config ! (i + 1))
   \<and> direct_enc_genome_size (config\<lparr>layer_dimensions := [4, 3, 2]\<rparr>) = 23"
proof
  let ?l = "layer_dimensions config"
  let ?f = "\<lambda>(in_f, out_f). in_f * out_f + out_f :: nat"
  have "direct_enc_genome_size config = (\<Sum>i = 0..<length (transitions ?l). ?f (transitions ?l ! i))"
    by (simp add: direct_enc_genome_size_def Let_def sum_list_sum_nth)
  also have "\<dots> = (\<Sum>i = 0..<length ?l - 1. ?l ! i * ?l ! (i + 1) + ?l ! (i + 1))"
    by (rule sum.cong) (simp_all add: length_transitions nth_transitions)
  finally show "direct_enc_genome_size config =
     (\<Sum>i<length ?l - 1. ?l ! i * ?l ! (i + 1) + ?l ! (i + 1))"
    by (simp add: atLeast0LessThan)
  show "direct_enc_genome_size (config\<lparr>layer_dimensions := [4, 3, 2]\<rparr>) = 23"
    by (simp add: direct_enc_genome_size_def transitions_def)
qed

subsection \<open>Claim C4: size and split point of a positionally encoded genome\<close>

text \<open>
  C4. For a topology of length at least two with positive entries and a positive \<open>d\<close>,
  the positional genome size is \<open>layer_dims[0] * d + sum(layer_dims[1:]) * (d + 1)\<close>.
  On a genome of that size the positional decoder splits at offset
  \<open>sum(layer_dims) * d\<close>: the position block is the first \<open>sum(layer_dims) * d\<close> genes,
  the bias block is the remaining \<open>sum(layer_dims[1:])\<close> genes, and the loop over the
  transitions runs on these two blocks.
\<close>

theorem gene_genome_size_and_split:
  assumes "2 \<le> length (layer_dimensions config)"
    and "\<forall>x\<in>set (layer_dimensions config). 0 < x"
    and "0 < encoding_d config"
    and "length genome = layer_dimensions config ! 0 * encoding_d config
           + sum_list (drop 1 (layer_dimensions config)) * (encoding_d config + 1)"
  shows "gene_enc_genome_size config
           = Inr (layer_dimensions config ! 0 * encoding_d config
                  + sum_list (drop 1 (layer_dimensions config)) * (encoding_d config + 1))
       \<and> jnp_split_at genome (sum_list (layer_dimensions config) * encoding_d config)
           = Inr (take (sum_list (layer_dimensions config) * encoding_d config) genome,
                  drop (sum_list (layer_dimensions config) * encoding_d config) genome)
       \<and> length (take (sum_list (layer_dimensions config) * encoding_d config) genome)
           = sum_list (layer_dimensions config) * encoding_d config
       \<and> length (drop (sum_list (layer_dimensions config) * encoding_d config) genome)
           = sum_list (drop 1 (layer_dimensions config))
       \<and> gene_decoding genome config
           = gene_loop config
               (take (sum_list (layer_dimensions config) * encoding_d config) genome)
               (drop (sum_list (layer_dimensions config) * encoding_d config) genome)
               (List.enumerate 0 (transitions (layer_dimensions config))) []"
proof -
  obtain l0 ls where l: "layer_dimensions config = l0 # ls"
    using assms(1) by (cases "layer_dimensions config") auto
  have len: "length genome = sum_list (layer_dimensions config) * encoding_d config + sum_list ls"
    using assms(4) by (simp add: l algebra_simps)
  show ?thesis
    using len
    by (simp add: l gene_enc_genome_size_def gene_decoding_def jnp_split_at_def Let_def
        algebra_simps)
qed

theorem gene_genome_size_and_split_witness:
  "gene_enc_genome_size \<lparr>encoding_d = 1, encoding_distance = ''L2'', encoding_type = ''gene'',
      layer_dimensions = [2, 2]\<rparr> = Inr 6
   \<and> jnp_split_at [0, 5, 10, 15, 1, 2 :: real] 4 = Inr ([0, 5, 10, 15], [1, 2])"
  using gene_genome_size_and_split[of "\<lparr>encoding_d = 1, encoding_distance = ''L2'',
      encoding_type = ''gene'', layer_dimensions = [2, 2]\<rparr>" "[0, 5, 10, 15, 1, 2 :: real]"]
  by simp

subsection \<open>Claim C5: the length contract\<close>

text \<open>
  C5. The claim asks both decoders to reject a genome whose length is not the genome
  size. \<^verbatim>\<open>gene_decoding\<close> asserts the length; \<^verbatim>\<open>direct_decoding\<close> has no such check. For
  the topology \<open>[1, 1]\<close> the direct genome size is 2, and the genome \<open>[1, 2, 3]\<close> of
  length 3 is decoded all the same: the trailing gene is dropped without an error.
\<close>

theorem direct_decoding_accepts_long_genome:
  "length [1, 2, 3 :: real] \<noteq> direct_enc_genome_size (config\<lparr>layer_dimensions := [1, 1]\<rparr>)
   \<and> direct_decoding [1, 2, 3 :: real] (config\<lparr>layer_dimensions := [1, 1]\<rparr>)
       = Inr [(''Dense_0'', \<lparr>kernel = [[1]], bias = [2]\<rparr>)]"
  by (simp add: direct_enc_genome_size_def transitions_def direct_decoding_def jnp_split_at_def
      enumerate_eq_zip dynamic_slice_def reshape_def slice_def dense_key_def str_small)

subsection \<open>Claim C6: a topology with a single layer\<close>

text \<open>
  C6, as stated: decoding with the topology \<open>[5]\<close> fails and returns no result. It
  does not hold: the direct decoder returns the empty dictionary.
\<close>

theorem single_layer_direct_returns:
  "direct_decoding ([] :: real list)
     \<lparr>encoding_d = 1, encoding_distance = ''L2'', encoding_type = ''direct'',
      layer_dimensions = [5]\<rparr> = Inr []"
  by (simp add: direct_decoding_def jnp_split_at_def transitions_def)

text \<open>
  C6, amended. For a topology \<open>[n]\<close> with a single entry neither decoder checks the
  topology: the loop over the layer pairs has no iteration. The size of a direct
  genome is then 0 and the size of a positional genome is \<open>n * d\<close>; with a genome of
  that size each decoder returns the empty dictionary.
\<close>

theorem single_layer_topology:
  assumes "layer_dimensions config = [n]"
    and "length genome = direct_enc_genome_size config"
    and "length g = n * encoding_d config"
  shows "direct_enc_genome_size config = 0
       \<and> direct_decoding genome config = Inr []
       \<and> gene_enc_genome_size config = Inr (n * encoding_d config)
       \<and> gene_decoding g config = Inr []"
  using assms
  by (simp add: direct_decoding_def direct_enc_genome_size_def gene_decoding_def
      gene_enc_genome_size_def jnp_split_at_def transitions_def)

theorem single_layer_topology_witness:
  "direct_enc_genome_size
     \<lparr>encoding_d = 1, encoding_distance = ''L2'', encoding_type = ''gene'',
      layer_dimensions = [5]\<rparr> = 0
   \<and> direct_decoding ([] :: real list)
     \<lparr>encoding_d = 1, encoding_distance = ''L2'', encoding_type = ''gene'',
      layer_dimensions = [5]\<rparr> = Inr []
   \<and> gene_enc_genome_size
     \<lparr>encoding_d = 1, encoding_distance = ''L2'', encoding_type = ''gene'',
      layer_dimensions = [5]\<rparr> = Inr 5
   \<and> gene_decoding [1, 2, 3, 4, 5]
     \<lparr>encoding_d = 1, encoding_distance = ''L2'', encoding_type = ''gene'',
      layer_dimensions = [5]\<rparr> = Inr []"
  using single_layer_topology[of "\<lparr>encoding_d = 1, encoding_distance = ''L2'',
      encoding_type = ''gene'', layer_dimensions = [5]\<rparr>" 5 "[] :: real list" "[1, 2, 3, 4, 5]"]
  by (simp add: direct_enc_genome_size_def transitions_def)

subsection \<open>Claim C7: where the biases are read\<close>

text \<open>
  C7. For a topology of length at least two with positive entries and a genome of the
  scheme's size (and, for the positional decoder, a known distance key), both
  decoders return, and the bias of transition \<open>i\<close> is the slice of the bias block that
  starts at offset \<open>layer_dims[1] + ... + layer_dims[i]\<close> and has length
  \<open>layer_dims[i+1]\<close>, the size of the transition's output layer. The input layer
  \<open>layer_dims[0]\<close> is not part of the sum, and for \<open>i = 0\<close> the sum is empty: the offset
  is 0. The bias block is what follows the weights (direct decoder) or the positions
  (positional decoder) in the genome.
\<close>

theorem bias_read_at_offset:
  assumes "2 \<le> length (layer_dimensions config)"
    and "\<forall>x\<in>set (layer_dimensions config). 0 < x"
    and "i < length (layer_dimensions config) - 1"
    and "length genome = direct_enc_genome_size config"
    and "Vectorized_distances (encoding_distance config) \<noteq> None"
    and "gene_enc_genome_size config = Inr (length g)"
  shows "(\<exists>r. direct_decoding genome config = Inr r
            \<and> bias (snd (r ! i))
              = take (layer_dimensions config ! (i + 1))
                  (drop (\<Sum>j = 1..i. layer_dimensions config ! j)
                     (drop (sum_list (map (\<lambda>k. layer_dimensions config ! k
                                                 * layer_dimensions config ! (k + 1))
                                          [0..<length (layer_dimensions config) - 1]))
                        genome)))
       \<and> (\<exists>r. gene_decoding g config = Inr r
            \<and> bias (snd (r ! i))
              = take (layer_dimensions config ! (i + 1))
                  (drop (\<Sum>j = 1..i. layer_dimensions config ! j)
                     (drop (sum_list (layer_dimensions config) * encoding_d config) g)))
       \<and> (\<Sum>j = 1..0. layer_dimensions config ! j) = 0"
proof -
  have off: "bias_offset (layer_dimensions config) i = (\<Sum>j = 1..i. layer_dimensions config ! j)"
    using assms(3) by (intro bias_offset_sum) simp
  show ?thesis
    using assms(3) off
    by (simp add: direct_decoding_valid[OF assms(4)] gene_decoding_valid[OF assms(1,2,5,6)]
        direct_entry_def gene_entry_def)
qed

theorem bias_read_at_offset_witness:
  "(\<exists>r. direct_decoding [1, 2, 3, 4, 5, 6, 7, 8, 9 :: real]
          \<lparr>encoding_d = 1, encoding_distance = ''L2'', encoding_type = ''gene'',
           layer_dimensions = [2, 2, 1]\<rparr> = Inr r
        \<and> bias (snd (r ! 1)) = [9])
   \<and> (\<exists>r. gene_decoding [0, 5, 10, 15, 20, 1, 2, 3]
          \<lparr>encoding_d = 1, encoding_distance = ''L2'', encoding_type = ''gene'',
           layer_dimensions = [2, 2, 1]\<rparr> = Inr r
        \<and> bias (snd (r ! 1)) = [3])"
proof -
  let ?c = "\<lparr>encoding_d = 1, encoding_distance = ''L2'', encoding_type = ''gene'',
             layer_dimensions = [2, 2, 1]\<rparr>"
  let ?genome = "[1, 2, 3, 4, 5, 6, 7, 8, 9 :: real]"
  let ?g = "[0, 5, 10, 15, 20, 1, 2, 3 :: real]"
  have h1: "2 \<le> length (layer_dimensions ?c)" by simp
  have h2: "\<forall>x\<in>set (layer_dimensions ?c). 0 < x" by simp
  have h3: "1 < length (layer_dimensions ?c) - 1" by simp
  have h4: "length ?genome = direct_enc_genome_size ?c"
    by (simp add: direct_enc_genome_size_def transitions_def)
  have h5: "Vectorized_distances (encoding_distance ?c) \<noteq> None"
    by (simp add: Vectorized_distances_def)
  have h6: "gene_enc_genome_size ?c = Inr (length ?g)"
    by (simp add: gene_enc_genome_size_def)
  have up: "[0..<length (layer_dimensions ?c) - 1] = [0, Suc 0]"
    by (simp add: upt_rec)
  show ?thesis
    using bias_read_at_offset[OF h1 h2 h3 h4 h5 h6] unfolding up
    by simp
qed

subsection \<open>Claim C8: number and shapes of the decoded entries\<close>

text \<open>
  C8. For a topology of length \<open>L\<close> at least two with positive entries and a genome of
  the scheme's size (and, for the positional decoder, a known distance key), each
  decoder returns exactly \<open>L - 1\<close> entries; the kernel of entry \<open>i\<close> has
  \<open>layer_dims[i]\<close> rows of \<open>layer_dims[i+1]\<close> columns each, and its bias has length
  \<open>layer_dims[i+1]\<close>. The shape of the positional kernel is the shape of what the
  distance table returns, which is modelled from the specification.
\<close>

theorem decoded_shapes:
  assumes "2 \<le> length (layer_dimensions config)"
    and "\<forall>x\<in>set (layer_dimensions config). 0 < x"
    and "length genome = direct_enc_genome_size config"
    and "Vectorized_distances (encoding_distance config) \<noteq> None"
    and "gene_enc_genome_size config = Inr (length g)"
  shows "(\<exists>r. direct_decoding genome config = Inr r
            \<and> length r = length (layer_dimensions config) - 1
            \<and> (\<forall>i<length (layer_dimensions config) - 1.
                  length (kernel (snd (r ! i))) = layer_dimensions config ! i
                  \<and> (\<forall>row\<in>set (kernel (snd (r ! i))).
                        length row = layer_dimensions config ! (i + 1))
                  \<and> length (bias (snd (r ! i))) = layer_dimensions config ! (i + 1)))
       \<and> (\<exists>r. gene_decoding g config = Inr r
            \<and> length r = length (layer_dimensions config) - 1
            \<and> (\<forall>i<length (layer_dimensions config) - 1.
                  length (kernel (snd (r ! i))) = layer_dimensions config ! i
                  \<and> (\<forall>row\<in>set (kernel (snd (r ! i))).
                        length row = layer_dimensions config ! (i + 1))
                  \<and> length (bias (snd (r ! i))) = layer_dimensions config ! (i + 1)))"
proof -
  let ?l = "layer_dimensions config"
  let ?W = "sum_list (map (\<lambda>k. ?l ! k * ?l ! (k + 1)) [0..<length ?l - 1])"
  let ?P = "sum_list ?l * encoding_d config"
  have W: "?W = weight_offset ?l (length ?l - 1)"
    by (rule weight_offset_upt) simp
  have dsz: "?W + sum_list (tl ?l) = length genome"
    using assms(3) W by (simp add: direct_size_split)
  have pos: "0 < sum_list ?l"
    using assms(1,2) by (rule sum_list_valid_pos)
  then have ne: "?l \<noteq> []" by auto
  have gsz: "length g = ?P + sum_list (tl ?l)"
    using assms(5) by (simp add: gene_size_split[OF ne])
  have dshape: "length (kernel (snd (direct_entry ?l (take ?W genome) (drop ?W genome) i))) = ?l ! i
        \<and> (\<forall>row\<in>set (kernel (snd (direct_entry ?l (take ?W genome) (drop ?W genome) i))).
               length row = ?l ! (i + 1))
        \<and> length (bias (snd (direct_entry ?l (take ?W genome) (drop ?W genome) i))) = ?l ! (i + 1)"
    if i: "i < length ?l - 1" for i
  proof -
    from i have si: "Suc i < length ?l" by simp
    have "weight_offset ?l (Suc i) \<le> weight_offset ?l (length ?l - 1)"
      using si by (intro weight_offset_mono) simp
    then have "weight_offset ?l i + ?l ! i * ?l ! Suc i \<le> length (take ?W genome)"
      using dsz si W by (simp add: weight_offset_Suc)
    then have sec: "length (take (?l ! i * ?l ! Suc i) (drop (weight_offset ?l i) (take ?W genome)))
                    = ?l ! i * ?l ! Suc i"
      by (rule length_take_drop)
    have "bias_offset ?l i + ?l ! Suc i \<le> sum_list (tl ?l)"
      using si by (rule bias_offset_bound)
    then have b: "bias_offset ?l i + ?l ! Suc i \<le> length (drop ?W genome)"
      using dsz by simp
    show ?thesis
    proof (intro conjI ballI)
      show "length (kernel (snd (direct_entry ?l (take ?W genome) (drop ?W genome) i))) = ?l ! i"
        by (simp add: direct_entry_def length_matrix_rows)
    next
      fix row
      assume "row \<in> set (kernel (snd (direct_entry ?l (take ?W genome) (drop ?W genome) i)))"
      then have "row \<in> set (matrix_rows
                    (take (?l ! i * ?l ! Suc i) (drop (weight_offset ?l i) (take ?W genome)))
                    (?l ! i) (?l ! Suc i))"
        by (simp add: direct_entry_def)
      from length_row_matrix_rows[OF sec this] show "length row = ?l ! (i + 1)"
        by simp
    next
      show "length (bias (snd (direct_entry ?l (take ?W genome) (drop ?W genome) i))) = ?l ! (i + 1)"
        using b by (simp add: direct_entry_def)
    qed
  qed
  have gshape: "length (kernel (snd (gene_entry (vectorized L2_dist) ?l (encoding_d config)
                   (take ?P g) (drop ?P g) i))) = ?l ! i
        \<and> (\<forall>row\<in>set (kernel (snd (gene_entry (vectorized L2_dist) ?l (encoding_d config)
                   (take ?P g) (drop ?P g) i))). length row = ?l ! (i + 1))
        \<and> length (bias (snd (gene_entry (vectorized L2_dist) ?l (encoding_d config)
                   (take ?P g) (drop ?P g) i))) = ?l ! (i + 1)"
    if i: "i < length ?l - 1" for i
  proof -
    from i have si: "Suc i < length ?l" by simp
    have "bias_offset ?l i + ?l ! Suc i \<le> sum_list (tl ?l)"
      using si by (rule bias_offset_bound)
    then have b: "bias_offset ?l i + ?l ! Suc i \<le> length (drop ?P g)"
      using gsz by simp
    show ?thesis
    proof (intro conjI ballI)
      show "length (kernel (snd (gene_entry (vectorized L2_dist) ?l (encoding_d config)
                   (take ?P g) (drop ?P g) i))) = ?l ! i"
        by (simp add: gene_entry_def vectorized_shape(1) src_idx_def)
    next
      fix row
      assume "row \<in> set (kernel (snd (gene_entry (vectorized L2_dist) ?l (encoding_d config)
                   (take ?P g) (drop ?P g) i)))"
      then have "row \<in> set (vectorized L2_dist (matrix_rows (take ?P g) (sum_list ?l) (encoding_d config))
                    (src_idx ?l i) (target_idx ?l i))"
        by (simp add: gene_entry_def)
      from vectorized_shape(2)[OF this] show "length row = ?l ! (i + 1)"
        by (simp add: target_idx_def)
    next
      show "length (bias (snd (gene_entry (vectorized L2_dist) ?l (encoding_d config)
                   (take ?P g) (drop ?P g) i))) = ?l ! (i + 1)"
        using b by (simp add: gene_entry_def)
    qed
  qed
  have D: "direct_decoding genome config
           = Inr (map (direct_entry ?l (take ?W genome) (drop ?W genome)) [0..<length ?l - 1])"
    by (rule direct_decoding_valid[OF assms(3)])
  have G: "gene_decoding g config
           = Inr (map (gene_entry (vectorized L2_dist) ?l (encoding_d config) (take ?P g) (drop ?P g))
                    [0..<length ?l - 1])"
    by (rule gene_decoding_valid[OF assms(1,2,4,5)])
  let ?rd = "map (direct_entry ?l (take ?W genome) (drop ?W genome)) [0..<length ?l - 1]"
  let ?rg = "map (gene_entry (vectorized L2_dist) ?l (encoding_d config) (take ?P g) (drop ?P g))
               [0..<length ?l - 1]"
  have rd: "length ?rd = length ?l - 1" by simp
  have rg: "length ?rg = length ?l - 1" by simp
  have rdi: "?rd ! i = direct_entry ?l (take ?W genome) (drop ?W genome) i"
    if "i < length ?l - 1" for i
    using that by simp
  have rgi: "?rg ! i = gene_entry (vectorized L2_dist) ?l (encoding_d config) (take ?P g) (drop ?P g) i"
    if "i < length ?l - 1" for i
    using that by simp
  have direct: "\<exists>r. direct_decoding genome config = Inr r
            \<and> length r = length ?l - 1
            \<and> (\<forall>i<length ?l - 1.
                  length (kernel (snd (r ! i))) = ?l ! i
                  \<and> (\<forall>row\<in>set (kernel (snd (r ! i))). length row = ?l ! (i + 1))
                  \<and> length (bias (snd (r ! i))) = ?l ! (i + 1))"
  proof (rule exI[of _ ?rd], rule conjI[OF D], rule conjI[OF rd], intro allI impI)
    fix i assume i: "i < length ?l - 1"
    show "length (kernel (snd (?rd ! i))) = ?l ! i
          \<and> (\<forall>row\<in>set (kernel (snd (?rd ! i))). length row = ?l ! (i + 1))
          \<and> length (bias (snd (?rd ! i))) = ?l ! (i + 1)"
      unfolding rdi[OF i] by (rule dshape[OF i])
  qed
  have gene: "\<exists>r. gene_decoding g config = Inr r
            \<and> length r = length ?l - 1
            \<and> (\<forall>i<length ?l - 1.
                  length (kernel (snd (r ! i))) = ?l ! i
                  \<and> (\<forall>row\<in>set (kernel (snd (r ! i))). length row = ?l ! (i + 1))
                  \<and> length (bias (snd (r ! i))) = ?l ! (i + 1))"
  proof (rule exI[of _ ?rg], rule conjI[OF G], rule conjI[OF rg], intro allI impI)
    fix i assume i: "i < length ?l - 1"
    show "length (kernel (snd (?rg ! i))) = ?l ! i
          \<and> (\<forall>row\<in>set (kernel (snd (?rg ! i))). length row = ?l ! (i + 1))
          \<and> length (bias (snd (?rg ! i))) = ?l ! (i + 1)"
      unfolding rgi[OF i] by (rule gshape[OF i])
  qed
  from direct gene show ?thesis by (rule conjI)
qed

theorem decoded_shapes_witness:
  "(\<exists>r. direct_decoding [1, 2, 3, 4, 5, 6, 7, 8, 9 :: real]
          \<lparr>encoding_d = 1, encoding_distance = ''L2'', encoding_type = ''gene'',
           layer_dimensions = [2, 2, 1]\<rparr> = Inr r
        \<and> length r = 2
        \<and> length (kernel (snd (r ! 1))) = 2
        \<and> length (kernel (snd (r ! 1)) ! 0) = 1
        \<and> length (bias (snd (r ! 1))) = 1)
   \<and> (\<exists>r. gene_decoding [0, 5, 10, 15, 20, 1, 2, 3]
          \<lparr>encoding_d = 1, encoding_distance = ''L2'', encoding_type = ''gene'',
           layer_dimensions = [2, 2, 1]\<rparr> = Inr r
        \<and> length r = 2
        \<and> length (kernel (snd (r ! 1))) = 2
        \<and> length (kernel (snd (r ! 1)) ! 0) = 1
        \<and> length (bias (snd (r ! 1))) = 1)"
proof -
  let ?c = "\<lparr>encoding_d = 1, encoding_distance = ''L2'', encoding_type = ''gene'',
             layer_dimensions = [2, 2, 1]\<rparr>"
  let ?genome = "[1, 2, 3, 4, 5, 6, 7, 8, 9 :: real]"
  let ?g = "[0, 5, 10, 15, 20, 1, 2, 3 :: real]"
  have h1: "2 \<le> length (layer_dimensions ?c)" by simp
  have h2: "\<forall>x\<in>set (layer_dimensions ?c). 0 < x" by simp
  have h3: "length ?genome = direct_enc_genome_size ?c"
    by (simp add: direct_enc_genome_size_def transitions_def)
  have h4: "Vectorized_distances (encoding_distance ?c) \<noteq> None"
    by (simp add: Vectorized_distances_def)
  have h5: "gene_enc_genome_size ?c = Inr (length ?g)"
    by (simp add: gene_enc_genome_size_def)
  have shape: "length r = 2 \<and> length (kernel (snd (r ! 1))) = 2
               \<and> length (kernel (snd (r ! 1)) ! 0) = 1 \<and> length (bias (snd (r ! 1))) = 1"
    if r: "length r = length (layer_dimensions ?c) - 1"
      "\<forall>i<length (layer_dimensions ?c) - 1.
          length (kernel (snd (r ! i))) = layer_dimensions ?c ! i
          \<and> (\<forall>row\<in>set (kernel (snd (r ! i))). length row = layer_dimensions ?c ! (i + 1))
          \<and> length (bias (snd (r ! i))) = layer_dimensions ?c ! (i + 1)"
    for r :: "(string \<times> real dense) list"
  proof -
    have i: "1 < length (layer_dimensions ?c) - 1" by simp
    from r(2)[rule_format, OF i]
    have k: "length (kernel (snd (r ! 1))) = 2"
      and rows: "\<forall>row\<in>set (kernel (snd (r ! 1))). length row = 1"
      and b: "length (bias (snd (r ! 1))) = 1"
      by simp_all
    from k have "kernel (snd (r ! 1)) ! 0 \<in> set (kernel (snd (r ! 1)))"
      by (intro nth_mem) simp
    with rows have "length (kernel (snd (r ! 1)) ! 0) = 1" by blast
    with r(1) k b show ?thesis by simp
  qed
  from decoded_shapes[OF h1 h2 h3 h4 h5] show ?thesis
    using shape by blast
qed

subsection \<open>Claim C9: decoding is a function of its inputs\<close>



subsection \<open>Claim C10: keys and entries of the returned dictionary\<close>



end
